theory Spec2Isabelle
  imports Main
begin

section \<open>The ebook-store contract: data model\<close>

text \<open>
  The contract is a Clarity program. A principal is a Stacks address, a
  \<open>string-utf8\<close> is a sequence of code points (\<open>len\<close> counts code points), a
  \<open>buff\<close> is a sequence of bytes. A Clarity \<open>uint\<close> is an unsigned 128-bit
  integer: it is modelled as a natural number, and the one addition of the
  contract is checked (\<open>uint_add\<close>), since Clarity arithmetic aborts the
  transaction on overflow instead of wrapping.
\<close>

type_synonym principal = string
type_synonym string_utf8 = "nat list"
type_synonym buff = "nat list"

definition uint_max :: nat where
  "uint_max = 2 ^ 128 - 1"

definition uint_add :: "nat \<Rightarrow> nat \<Rightarrow> nat option" where
  "uint_add a b = (if a + b \<le> uint_max then Some (a + b) else None)"

text \<open>Values of the map \<open>ebooks\<close> and of the map \<open>purchases\<close>.\<close>

record ebook =
  title :: string_utf8
  description :: string_utf8
  content_hash :: buff
  price :: nat
  author :: principal
  created_at :: nat
  active :: bool

record purchase =
  purchased_at :: nat
  price_paid :: nat

text \<open>The tuples handed to \<open>print\<close>, one constructor for each \<open>event\<close> tag.\<close>

datatype event =
    Ebook_registered nat string_utf8 principal nat buff nat
  | Ebook_purchased nat principal principal nat nat
  | Price_updated nat nat nat nat
  | Ebook_deactivated nat principal nat
  | Ebook_reactivated nat principal nat

text \<open>
  The state a call reads and writes: the data variable \<open>ebook-counter\<close>, the
  four data maps, the STX balances of the chain (read and written by
  \<open>stx-transfer?\<close>) and the events printed so far.
\<close>

record state =
  ebook_counter :: nat
  ebooks :: "nat \<rightharpoonup> ebook"
  purchases :: "(nat \<times> principal) \<rightharpoonup> purchase"
  author_ebooks :: "principal \<rightharpoonup> nat list"
  buyer_ebooks :: "principal \<rightharpoonup> nat list"
  stx_balances :: "principal \<Rightarrow> nat"
  events :: "event list"

text \<open>What a call sees of its transaction: \<open>tx-sender\<close> and \<open>stacks-block-time\<close>.\<close>

record call_env =
  tx_sender :: principal
  stacks_block_time :: nat

text \<open>
  A response is \<open>(ok v)\<close>, written \<open>Inr v\<close>, or an error: \<open>(err uN)\<close> of the
  contract, or a runtime error of the virtual machine.
\<close>

datatype error = Err nat | Runtime_error

definition ERR_NOT_AUTHORIZED :: error where "ERR_NOT_AUTHORIZED = Err 100"
definition ERR_EBOOK_NOT_FOUND :: error where "ERR_EBOOK_NOT_FOUND = Err 101"
definition ERR_EBOOK_EXISTS :: error where "ERR_EBOOK_EXISTS = Err 102"
definition ERR_INSUFFICIENT_FUNDS :: error where "ERR_INSUFFICIENT_FUNDS = Err 103"
definition ERR_ALREADY_PURCHASED :: error where "ERR_ALREADY_PURCHASED = Err 104"
definition ERR_INVALID_PRICE :: error where "ERR_INVALID_PRICE = Err 105"
definition ERR_INVALID_TITLE :: error where "ERR_INVALID_TITLE = Err 106"
definition ERR_SELF_PURCHASE :: error where "ERR_SELF_PURCHASE = Err 107"
definition ERR_TRANSFER_FAILED :: error where "ERR_TRANSFER_FAILED = Err 108"

section \<open>Primitives of the language\<close>

text \<open>
  \<open>as-max-len?\<close> returns the list when it fits the bound and \<open>none\<close> otherwise.
\<close>

definition as_max_len :: "'a list \<Rightarrow> nat \<Rightarrow> 'a list option" where
  "as_max_len xs n = (if length xs \<le> n then Some xs else None)"

text \<open>
  \<open>stx-transfer? amount sender recipient\<close> moves \<open>amount\<close> from the sender to the
  recipient. It answers \<open>(err u3)\<close> for a zero amount, \<open>(err u2)\<close> when sender and
  recipient are the same, \<open>(err u4)\<close> when the sender is not \<open>tx-sender\<close>, and
  \<open>(err u1)\<close> when the sender's balance is too small; none of these changes a
  balance.
\<close>

definition stx_transfer :: "call_env \<Rightarrow> nat \<Rightarrow> principal \<Rightarrow> principal \<Rightarrow> state \<Rightarrow> nat + state" where
  "stx_transfer env amount sender recipient s =
     (if amount = 0 then Inl 3
      else if sender = recipient then Inl 2
      else if sender \<noteq> tx_sender env then Inl 4
      else if stx_balances s sender < amount then Inl 1
      else Inr (s\<lparr>stx_balances := (stx_balances s)
                 (sender := stx_balances s sender - amount,
                  recipient := stx_balances s recipient + amount)\<rparr>))"

section \<open>Private and read-only functions\<close>

definition ebook_exists :: "state \<Rightarrow> nat \<Rightarrow> bool" where
  "ebook_exists s ebook_id = (ebooks s ebook_id \<noteq> None)"

definition get_current_time :: "call_env \<Rightarrow> nat" where
  "get_current_time env = stacks_block_time env"

definition get_ebook :: "state \<Rightarrow> nat \<Rightarrow> ebook option" where
  "get_ebook s ebook_id = ebooks s ebook_id"

definition has_access :: "state \<Rightarrow> principal \<Rightarrow> nat \<Rightarrow> bool" where
  "has_access s buyer ebook_id = (purchases s (ebook_id, buyer) \<noteq> None)"

definition get_purchase :: "state \<Rightarrow> principal \<Rightarrow> nat \<Rightarrow> purchase option" where
  "get_purchase s buyer ebook_id = purchases s (ebook_id, buyer)"

definition get_ebook_count :: "state \<Rightarrow> nat" where
  "get_ebook_count s = ebook_counter s"

definition get_author_ebooks :: "state \<Rightarrow> principal \<Rightarrow> nat list" where
  "get_author_ebooks s a = (case author_ebooks s a of None \<Rightarrow> [] | Some l \<Rightarrow> l)"

definition get_buyer_ebooks :: "state \<Rightarrow> principal \<Rightarrow> nat list" where
  "get_buyer_ebooks s buyer = (case buyer_ebooks s buyer of None \<Rightarrow> [] | Some l \<Rightarrow> l)"

definition is_author :: "state \<Rightarrow> nat \<Rightarrow> principal \<Rightarrow> bool" where
  "is_author s ebook_id user =
     (case ebooks s ebook_id of Some b \<Rightarrow> author b = user | None \<Rightarrow> False)"

definition get_ebook_price :: "state \<Rightarrow> nat \<Rightarrow> error + nat" where
  "get_ebook_price s ebook_id =
     (case ebooks s ebook_id of Some b \<Rightarrow> Inr (price b) | None \<Rightarrow> Inl ERR_EBOOK_NOT_FOUND)"

section \<open>Public functions\<close>

text \<open>
  The body of a public function is evaluated statement by statement; each
  \<open>asserts!\<close> and \<open>unwrap!\<close> that fails leaves the body at once with its error.
  A body returns its response together with the state at the point where it
  was left. The virtual machine commits the writes of a public call that
  answers \<open>ok\<close> and discards those of a call that answers \<open>err\<close> or aborts:
  that is \<open>public_call\<close>.
\<close>

definition public_call :: "(state \<Rightarrow> (error + 'a) \<times> state) \<Rightarrow> state \<Rightarrow> (error + 'a) \<times> state" where
  "public_call body s =
     (case body s of
        (Inl e, _) \<Rightarrow> (Inl e, s)
      | (Inr v, s') \<Rightarrow> (Inr v, s'))"

definition register_ebook_body ::
  "call_env \<Rightarrow> string_utf8 \<Rightarrow> string_utf8 \<Rightarrow> buff \<Rightarrow> nat \<Rightarrow> state \<Rightarrow> (error + nat) \<times> state" where
  "register_ebook_body env title' description' content_hash' price' s =
     (case uint_add (ebook_counter s) 1 of
        None \<Rightarrow> (Inl Runtime_error, s)
      | Some new_ebook_id \<Rightarrow>
          let author' = tx_sender env;
              current_author_ebooks = get_author_ebooks s (tx_sender env)
          in
          if \<not> length title' > 0 then (Inl ERR_INVALID_TITLE, s)
          else if \<not> price' > 0 then (Inl ERR_INVALID_PRICE, s)
          else
            let s1 = s\<lparr>ebooks := (ebooks s)(new_ebook_id \<mapsto>
                       \<lparr>title = title', description = description',
                        content_hash = content_hash', price = price',
                        author = author', created_at = get_current_time env,
                        active = True\<rparr>)\<rparr>
            in
            (case as_max_len (current_author_ebooks @ [new_ebook_id]) 100 of
               None \<Rightarrow> (Inl ERR_NOT_AUTHORIZED, s1)
             | Some l \<Rightarrow>
                 let s2 = s1\<lparr>author_ebooks := (author_ebooks s1)(author' \<mapsto> l)\<rparr>;
                     s3 = s2\<lparr>ebook_counter := new_ebook_id\<rparr>;
                     s4 = s3\<lparr>events := events s3 @
                            [Ebook_registered new_ebook_id title' author' price'
                               content_hash' (get_current_time env)]\<rparr>
                 in (Inr new_ebook_id, s4)))"

definition register_ebook ::
  "call_env \<Rightarrow> string_utf8 \<Rightarrow> string_utf8 \<Rightarrow> buff \<Rightarrow> nat \<Rightarrow> state \<Rightarrow> (error + nat) \<times> state" where
  "register_ebook env title' description' content_hash' price' =
     public_call (register_ebook_body env title' description' content_hash' price')"

definition buy_ebook_body :: "call_env \<Rightarrow> nat \<Rightarrow> state \<Rightarrow> (error + bool) \<times> state" where
  "buy_ebook_body env ebook_id s =
     (let buyer = tx_sender env in
      case ebooks s ebook_id of
        None \<Rightarrow> (Inl ERR_EBOOK_NOT_FOUND, s)
      | Some b \<Rightarrow>
          let price' = price b;
              author' = author b;
              current_buyer_ebooks = get_buyer_ebooks s buyer
          in
          if \<not> active b then (Inl ERR_EBOOK_NOT_FOUND, s)
          else if \<not> buyer \<noteq> author' then (Inl ERR_SELF_PURCHASE, s)
          else if \<not> \<not> has_access s buyer ebook_id then (Inl ERR_ALREADY_PURCHASED, s)
          else
            (case stx_transfer env price' buyer author' s of
               Inl _ \<Rightarrow> (Inl ERR_TRANSFER_FAILED, s)
             | Inr s1 \<Rightarrow>
                 let s2 = s1\<lparr>purchases := (purchases s1)((ebook_id, buyer) \<mapsto>
                            \<lparr>purchased_at = get_current_time env, price_paid = price'\<rparr>)\<rparr>
                 in
                 (case as_max_len (current_buyer_ebooks @ [ebook_id]) 100 of
                    None \<Rightarrow> (Inl ERR_NOT_AUTHORIZED, s2)
                  | Some l \<Rightarrow>
                      let s3 = s2\<lparr>buyer_ebooks := (buyer_ebooks s2)(buyer \<mapsto> l)\<rparr>;
                          s4 = s3\<lparr>events := events s3 @
                                 [Ebook_purchased ebook_id buyer author' price'
                                    (get_current_time env)]\<rparr>
                      in (Inr True, s4))))"

definition buy_ebook :: "call_env \<Rightarrow> nat \<Rightarrow> state \<Rightarrow> (error + bool) \<times> state" where
  "buy_ebook env ebook_id = public_call (buy_ebook_body env ebook_id)"

definition update_price_body :: "call_env \<Rightarrow> nat \<Rightarrow> nat \<Rightarrow> state \<Rightarrow> (error + bool) \<times> state" where
  "update_price_body env ebook_id new_price s =
     (case ebooks s ebook_id of
        None \<Rightarrow> (Inl ERR_EBOOK_NOT_FOUND, s)
      | Some b \<Rightarrow>
          if \<not> author b = tx_sender env then (Inl ERR_NOT_AUTHORIZED, s)
          else if \<not> new_price > 0 then (Inl ERR_INVALID_PRICE, s)
          else
            let s1 = s\<lparr>ebooks := (ebooks s)(ebook_id \<mapsto> b\<lparr>price := new_price\<rparr>)\<rparr>;
                s2 = s1\<lparr>events := events s1 @
                       [Price_updated ebook_id (price b) new_price (get_current_time env)]\<rparr>
            in (Inr True, s2))"

definition update_price :: "call_env \<Rightarrow> nat \<Rightarrow> nat \<Rightarrow> state \<Rightarrow> (error + bool) \<times> state" where
  "update_price env ebook_id new_price = public_call (update_price_body env ebook_id new_price)"

definition deactivate_ebook_body :: "call_env \<Rightarrow> nat \<Rightarrow> state \<Rightarrow> (error + bool) \<times> state" where
  "deactivate_ebook_body env ebook_id s =
     (case ebooks s ebook_id of
        None \<Rightarrow> (Inl ERR_EBOOK_NOT_FOUND, s)
      | Some b \<Rightarrow>
          if \<not> author b = tx_sender env then (Inl ERR_NOT_AUTHORIZED, s)
          else
            let s1 = s\<lparr>ebooks := (ebooks s)(ebook_id \<mapsto> b\<lparr>active := False\<rparr>)\<rparr>;
                s2 = s1\<lparr>events := events s1 @
                       [Ebook_deactivated ebook_id (tx_sender env) (get_current_time env)]\<rparr>
            in (Inr True, s2))"

definition deactivate_ebook :: "call_env \<Rightarrow> nat \<Rightarrow> state \<Rightarrow> (error + bool) \<times> state" where
  "deactivate_ebook env ebook_id = public_call (deactivate_ebook_body env ebook_id)"

definition reactivate_ebook_body :: "call_env \<Rightarrow> nat \<Rightarrow> state \<Rightarrow> (error + bool) \<times> state" where
  "reactivate_ebook_body env ebook_id s =
     (case ebooks s ebook_id of
        None \<Rightarrow> (Inl ERR_EBOOK_NOT_FOUND, s)
      | Some b \<Rightarrow>
          if \<not> author b = tx_sender env then (Inl ERR_NOT_AUTHORIZED, s)
          else
            let s1 = s\<lparr>ebooks := (ebooks s)(ebook_id \<mapsto> b\<lparr>active := True\<rparr>)\<rparr>;
                s2 = s1\<lparr>events := events s1 @
                       [Ebook_reactivated ebook_id (tx_sender env) (get_current_time env)]\<rparr>
            in (Inr True, s2))"

definition reactivate_ebook :: "call_env \<Rightarrow> nat \<Rightarrow> state \<Rightarrow> (error + bool) \<times> state" where
  "reactivate_ebook env ebook_id = public_call (reactivate_ebook_body env ebook_id)"

section \<open>Sequences of calls\<close>

text \<open>
  A transaction calls one public function with its arguments. The state of a
  freshly deployed contract has the counter at zero and every map empty; the
  balances are those of the chain at that moment.
\<close>

datatype call =
    Register_ebook string_utf8 string_utf8 buff nat
  | Buy_ebook nat
  | Update_price nat nat
  | Deactivate_ebook nat
  | Reactivate_ebook nat

datatype clarity_value = Uint nat | Bool bool

definition lift_response :: "('a \<Rightarrow> clarity_value) \<Rightarrow> (error + 'a) \<times> state \<Rightarrow> (error + clarity_value) \<times> state" where
  "lift_response f r = (case r of (Inl e, s) \<Rightarrow> (Inl e, s) | (Inr v, s) \<Rightarrow> (Inr (f v), s))"

fun exec_call :: "call_env \<times> call \<Rightarrow> state \<Rightarrow> (error + clarity_value) \<times> state" where
  "exec_call (env, Register_ebook t d h p) s = lift_response Uint (register_ebook env t d h p s)"
| "exec_call (env, Buy_ebook i) s = lift_response Bool (buy_ebook env i s)"
| "exec_call (env, Update_price i p) s = lift_response Bool (update_price env i p s)"
| "exec_call (env, Deactivate_ebook i) s = lift_response Bool (deactivate_ebook env i s)"
| "exec_call (env, Reactivate_ebook i) s = lift_response Bool (reactivate_ebook env i s)"

fun exec_calls :: "(call_env \<times> call) list \<Rightarrow> state \<Rightarrow> state" where
  "exec_calls [] s = s"
| "exec_calls (c # cs) s = exec_calls cs (snd (exec_call c s))"

definition init_state :: "(principal \<Rightarrow> nat) \<Rightarrow> state" where
  "init_state bal =
     \<lparr>ebook_counter = 0, ebooks = Map.empty, purchases = Map.empty,
      author_ebooks = Map.empty, buyer_ebooks = Map.empty,
      stx_balances = bal, events = []\<rparr>"

text \<open>
  The identifiers answered by the successful \<open>register-ebook\<close> calls of a
  sequence, in the order of the calls.
\<close>

fun registered_ids :: "(call_env \<times> call) list \<Rightarrow> state \<Rightarrow> nat list" where
  "registered_ids [] s = []"
| "registered_ids ((env, c) # cs) s =
     (case c of
        Register_ebook _ _ _ _ \<Rightarrow>
          (case fst (exec_call (env, c) s) of Inr (Uint n) \<Rightarrow> [n] | _ \<Rightarrow> [])
      | _ \<Rightarrow> [])
     @ registered_ids cs (snd (exec_call (env, c) s))"

text \<open>
  The invariant of the reachable states that the proofs below rest on: no book
  lies beyond the counter, a purchase belongs to a stored book whose author is
  not the buyer, and the buyer index lists exactly the purchased books, each
  once.
\<close>

definition ledger_inv :: "state \<Rightarrow> bool" where
  "ledger_inv s \<longleftrightarrow>
     (\<forall>i. ebooks s i \<noteq> None \<longrightarrow> i \<le> ebook_counter s) \<and>
     (\<forall>i u. purchases s (i, u) \<noteq> None \<longrightarrow> (\<exists>b. ebooks s i = Some b \<and> author b \<noteq> u)) \<and>
     (\<forall>u. distinct (get_buyer_ebooks s u)) \<and>
     (\<forall>u i. i \<in> set (get_buyer_ebooks s u) \<longleftrightarrow> purchases s (i, u) \<noteq> None)"

section \<open>A concrete scenario\<close>

text \<open>
  Alice registers a book priced at one STX; Bob holds five STX, everybody else
  nothing. The states below are reached from the freshly deployed contract by
  the calls written in their definitions.
\<close>

definition alice :: principal where "alice = ''alice''"
definition bob :: principal where "bob = ''bob''"
definition carol :: principal where "carol = ''carol''"

definition as_sender :: "principal \<Rightarrow> call_env" where
  "as_sender u = \<lparr>tx_sender = u, stacks_block_time = 1700000000\<rparr>"

definition funds :: "principal \<Rightarrow> nat" where
  "funds u = (if u = ''bob'' then 5000000 else 0)"

definition a_book :: call where
  "a_book = Register_ebook [66, 111, 111, 107] [] (replicate 32 7) 1000000"

definition the_book :: ebook where
  "the_book = \<lparr>title = [66, 111, 111, 107], description = [], content_hash = replicate 32 7,
      price = 1000000, author = ''alice'', created_at = 1700000000, active = True\<rparr>"

definition listed_state :: state where
  "listed_state = exec_calls [(as_sender alice, a_book)] (init_state funds)"

definition sold_state :: state where
  "sold_state = exec_calls [(as_sender alice, a_book), (as_sender bob, Buy_ebook 1)]
     (init_state funds)"

definition delisted_state :: state where
  "delisted_state = exec_calls [(as_sender alice, a_book), (as_sender alice, Deactivate_ebook 1)]
     (init_state funds)"

definition sold_delisted_state :: state where
  "sold_delisted_state = exec_calls [(as_sender alice, a_book), (as_sender bob, Buy_ebook 1),
     (as_sender alice, Deactivate_ebook 1)] (init_state funds)"

definition full_state :: state where
  "full_state = exec_calls (replicate 100 (as_sender alice, a_book)) (init_state funds)"

definition mixed_calls :: "(call_env \<times> call) list" where
  "mixed_calls = [(as_sender alice, a_book), (as_sender bob, Buy_ebook 1),
     (as_sender bob, Register_ebook [] [] [] 5), (as_sender bob, a_book)]"

section \<open>What each public function does\<close>

lemma public_call_fail: "public_call body s = (Inl e, s') \<Longrightarrow> s' = s"
  by (auto simp: public_call_def split: prod.splits sum.splits)

lemma register_ebook_result:
  "register_ebook env t d h p s = (Inl e, s') \<Longrightarrow> s' = s"
  by (auto simp: register_ebook_def public_call_def split: prod.splits sum.splits)

lemma register_ebook_ok:
  assumes "register_ebook env t d h p s = (Inr n, s')"
  shows "n = Suc (ebook_counter s) \<and>
         s' = s\<lparr>ebooks := (ebooks s)(n \<mapsto>
                  \<lparr>title = t, description = d, content_hash = h, price = p,
                   author = tx_sender env, created_at = get_current_time env, active = True\<rparr>),
                author_ebooks := (author_ebooks s)(tx_sender env \<mapsto> get_author_ebooks s (tx_sender env) @ [n]),
                ebook_counter := n,
                events := events s @ [Ebook_registered n t (tx_sender env) p h (get_current_time env)]\<rparr>"
  using assms
  by (auto simp: register_ebook_def register_ebook_body_def public_call_def uint_add_def
      as_max_len_def Let_def split: if_splits)

lemma buy_ebook_ok:
  assumes "buy_ebook env i s = (Inr v, s')"
  shows "\<exists>b. ebooks s i = Some b \<and> active b \<and> tx_sender env \<noteq> author b \<and>
           purchases s (i, tx_sender env) = None \<and> v \<and>
           s' = s\<lparr>stx_balances := (stx_balances s)
                    (tx_sender env := stx_balances s (tx_sender env) - price b,
                     author b := stx_balances s (author b) + price b),
                  purchases := (purchases s)((i, tx_sender env) \<mapsto>
                     \<lparr>purchased_at = get_current_time env, price_paid = price b\<rparr>),
                  buyer_ebooks := (buyer_ebooks s)(tx_sender env \<mapsto> get_buyer_ebooks s (tx_sender env) @ [i]),
                  events := events s @ [Ebook_purchased i (tx_sender env) (author b) (price b) (get_current_time env)]\<rparr>"
  using assms
  by (auto simp: buy_ebook_def buy_ebook_body_def public_call_def has_access_def
      stx_transfer_def as_max_len_def Let_def split: if_splits option.splits sum.splits)

lemma update_price_ok:
  assumes "update_price env i p s = (Inr v, s')"
  shows "\<exists>b. ebooks s i = Some b \<and> author b = tx_sender env \<and> 0 < p \<and> v \<and>
           s' = s\<lparr>ebooks := (ebooks s)(i \<mapsto> b\<lparr>price := p\<rparr>),
                  events := events s @ [Price_updated i (price b) p (get_current_time env)]\<rparr>"
  using assms
  by (auto simp: update_price_def update_price_body_def public_call_def Let_def
      split: if_splits option.splits)

lemma deactivate_ebook_ok:
  assumes "deactivate_ebook env i s = (Inr v, s')"
  shows "\<exists>b. ebooks s i = Some b \<and> author b = tx_sender env \<and> v \<and>
           s' = s\<lparr>ebooks := (ebooks s)(i \<mapsto> b\<lparr>active := False\<rparr>),
                  events := events s @ [Ebook_deactivated i (tx_sender env) (get_current_time env)]\<rparr>"
  using assms
  by (auto simp: deactivate_ebook_def deactivate_ebook_body_def public_call_def Let_def
      split: if_splits option.splits)

lemma reactivate_ebook_ok:
  assumes "reactivate_ebook env i s = (Inr v, s')"
  shows "\<exists>b. ebooks s i = Some b \<and> author b = tx_sender env \<and> v \<and>
           s' = s\<lparr>ebooks := (ebooks s)(i \<mapsto> b\<lparr>active := True\<rparr>),
                  events := events s @ [Ebook_reactivated i (tx_sender env) (get_current_time env)]\<rparr>"
  using assms
  by (auto simp: reactivate_ebook_def reactivate_ebook_body_def public_call_def Let_def
      split: if_splits option.splits)

lemma register_ebook_succeeds:
  assumes "0 < length t" and "0 < p" and "ebook_counter s < uint_max"
    and "length (get_author_ebooks s (tx_sender env)) < 100"
  shows "register_ebook env t d h p s =
     (Inr (Suc (ebook_counter s)),
      s\<lparr>ebooks := (ebooks s)(Suc (ebook_counter s) \<mapsto>
                  \<lparr>title = t, description = d, content_hash = h, price = p,
                   author = tx_sender env, created_at = get_current_time env, active = True\<rparr>),
        author_ebooks := (author_ebooks s)(tx_sender env \<mapsto>
                  get_author_ebooks s (tx_sender env) @ [Suc (ebook_counter s)]),
        ebook_counter := Suc (ebook_counter s),
        events := events s @ [Ebook_registered (Suc (ebook_counter s)) t (tx_sender env) p h
                  (get_current_time env)]\<rparr>)"
  using assms
  by (simp add: register_ebook_def register_ebook_body_def public_call_def uint_add_def
      as_max_len_def Let_def)

lemma register_at_capacity:
  assumes "0 < length t" and "0 < p"
    and "length (get_author_ebooks s (tx_sender env)) = 100"
  shows "register_ebook env t d h p s =
     (Inl (if ebook_counter s < uint_max then ERR_NOT_AUTHORIZED else Runtime_error), s)"
  using assms
  by (simp add: register_ebook_def register_ebook_body_def public_call_def uint_add_def
      as_max_len_def Let_def)

lemma fst_lift_response:
  "fst (lift_response f r) = (case fst r of Inl e \<Rightarrow> Inl e | Inr v \<Rightarrow> Inr (f v))"
  by (auto simp: lift_response_def split: prod.splits sum.splits)

lemma snd_lift_response: "snd (lift_response f r) = snd r"
  by (auto simp: lift_response_def split: prod.splits sum.splits)

section \<open>The invariant of the reachable states\<close>

lemma get_buyer_ebooks_upd:
  "get_buyer_ebooks (s\<lparr>buyer_ebooks := (buyer_ebooks s)(u \<mapsto> l)\<rparr>) u' =
     (if u' = u then l else get_buyer_ebooks s u')"
  by (simp add: get_buyer_ebooks_def)

lemma get_buyer_ebooks_frame [simp]:
  "get_buyer_ebooks (s\<lparr>ebooks := e\<rparr>) = get_buyer_ebooks s"
  "get_buyer_ebooks (s\<lparr>purchases := p\<rparr>) = get_buyer_ebooks s"
  "get_buyer_ebooks (s\<lparr>author_ebooks := a\<rparr>) = get_buyer_ebooks s"
  "get_buyer_ebooks (s\<lparr>ebook_counter := c\<rparr>) = get_buyer_ebooks s"
  "get_buyer_ebooks (s\<lparr>stx_balances := bal\<rparr>) = get_buyer_ebooks s"
  "get_buyer_ebooks (s\<lparr>events := ev\<rparr>) = get_buyer_ebooks s"
  by (simp_all add: get_buyer_ebooks_def fun_eq_iff)

lemma inv_book_update:
  assumes inv: "ledger_inv s" and b: "ebooks s i = Some b" and au: "author b' = author b"
  shows "ledger_inv (s\<lparr>ebooks := (ebooks s)(i \<mapsto> b'), events := ev\<rparr>)"
  unfolding ledger_inv_def
proof (intro conjI allI impI)
  fix j assume "ebooks (s\<lparr>ebooks := (ebooks s)(i \<mapsto> b'), events := ev\<rparr>) j \<noteq> None"
  then have "ebooks s j \<noteq> None" using b by (simp split: if_splits)
  with inv show "j \<le> ebook_counter (s\<lparr>ebooks := (ebooks s)(i \<mapsto> b'), events := ev\<rparr>)"
    by (simp add: ledger_inv_def)
next
  fix j u assume "purchases (s\<lparr>ebooks := (ebooks s)(i \<mapsto> b'), events := ev\<rparr>) (j, u) \<noteq> None"
  then have "purchases s (j, u) \<noteq> None" by simp
  with inv obtain c where c: "ebooks s j = Some c" "author c \<noteq> u"
    unfolding ledger_inv_def by blast
  show "\<exists>c. ebooks (s\<lparr>ebooks := (ebooks s)(i \<mapsto> b'), events := ev\<rparr>) j = Some c \<and> author c \<noteq> u"
  proof (cases "j = i")
    case True
    with b c au show ?thesis by simp
  next
    case False
    with c show ?thesis by simp
  qed
next
  fix u from inv show "distinct (get_buyer_ebooks (s\<lparr>ebooks := (ebooks s)(i \<mapsto> b'), events := ev\<rparr>) u)"
    by (simp add: ledger_inv_def)
next
  fix u j from inv
  show "(j \<in> set (get_buyer_ebooks (s\<lparr>ebooks := (ebooks s)(i \<mapsto> b'), events := ev\<rparr>) u)) =
        (purchases (s\<lparr>ebooks := (ebooks s)(i \<mapsto> b'), events := ev\<rparr>) (j, u) \<noteq> None)"
    by (simp add: ledger_inv_def)
qed

lemma inv_register:
  assumes "ledger_inv s"
  shows "ledger_inv (snd (register_ebook env t d h p s))"
proof (cases "register_ebook env t d h p s")
  case (Pair r s')
  show ?thesis
  proof (cases r)
    case (Inl e)
    with Pair have "s' = s" by (simp add: register_ebook_def public_call_fail)
    with Pair assms show ?thesis by simp
  next
    case (Inr n)
    from assms have fresh: "ebooks s (Suc (ebook_counter s)) = None"
      by (fastforce simp: ledger_inv_def)
    with assms have nop: "purchases s (Suc (ebook_counter s), u) = None" for u
      by (fastforce simp: ledger_inv_def)
    from register_ebook_ok [OF Pair [unfolded Inr]] assms fresh nop
    have "ledger_inv s'"
      by (auto simp: ledger_inv_def)
    with Pair show ?thesis by simp
  qed
qed

lemma inv_buy:
  assumes "ledger_inv s"
  shows "ledger_inv (snd (buy_ebook env i s))"
proof (cases "buy_ebook env i s")
  case (Pair r s')
  show ?thesis
  proof (cases r)
    case (Inl e)
    with Pair have "s' = s" by (simp add: buy_ebook_def public_call_fail)
    with Pair assms show ?thesis by simp
  next
    case (Inr v)
    from buy_ebook_ok [OF Pair [unfolded Inr]] obtain b where
      b: "ebooks s i = Some b" "tx_sender env \<noteq> author b"
         "purchases s (i, tx_sender env) = None"
      and s': "s' = s\<lparr>stx_balances := (stx_balances s)
                    (tx_sender env := stx_balances s (tx_sender env) - price b,
                     author b := stx_balances s (author b) + price b),
                  purchases := (purchases s)((i, tx_sender env) \<mapsto>
                     \<lparr>purchased_at = get_current_time env, price_paid = price b\<rparr>),
                  buyer_ebooks := (buyer_ebooks s)(tx_sender env \<mapsto> get_buyer_ebooks s (tx_sender env) @ [i]),
                  events := events s @ [Ebook_purchased i (tx_sender env) (author b) (price b) (get_current_time env)]\<rparr>"
      by blast
    from assms b have notin: "i \<notin> set (get_buyer_ebooks s (tx_sender env))"
      by (simp add: ledger_inv_def)
    have gbe: "get_buyer_ebooks s' u =
        (if u = tx_sender env then get_buyer_ebooks s (tx_sender env) @ [i] else get_buyer_ebooks s u)" for u
      by (simp add: s' get_buyer_ebooks_def)
    have "ledger_inv s'"
      unfolding ledger_inv_def
    proof (intro conjI allI impI)
      fix j assume "ebooks s' j \<noteq> None"
      with assms show "j \<le> ebook_counter s'" by (simp add: s' ledger_inv_def)
    next
      fix j u assume "purchases s' (j, u) \<noteq> None"
      with assms b show "\<exists>b. ebooks s' j = Some b \<and> author b \<noteq> u"
        by (auto simp: s' ledger_inv_def split: if_splits)
    next
      fix u from assms notin show "distinct (get_buyer_ebooks s' u)"
        by (simp add: gbe ledger_inv_def)
    next
      fix u j from assms show "(j \<in> set (get_buyer_ebooks s' u)) = (purchases s' (j, u) \<noteq> None)"
        unfolding gbe by (auto simp: s' ledger_inv_def)
    qed
    with Pair show ?thesis by simp
  qed
qed

lemma inv_update_price:
  assumes "ledger_inv s"
  shows "ledger_inv (snd (update_price env i p s))"
proof (cases "update_price env i p s")
  case (Pair r s')
  show ?thesis
  proof (cases r)
    case (Inl e)
    with Pair have "s' = s" by (simp add: update_price_def public_call_fail)
    with Pair assms show ?thesis by simp
  next
    case (Inr v)
    from update_price_ok [OF Pair [unfolded Inr]] assms
    have "ledger_inv s'"
      by (auto intro!: inv_book_update)
    with Pair show ?thesis by simp
  qed
qed

lemma inv_deactivate:
  assumes "ledger_inv s"
  shows "ledger_inv (snd (deactivate_ebook env i s))"
proof (cases "deactivate_ebook env i s")
  case (Pair r s')
  show ?thesis
  proof (cases r)
    case (Inl e)
    with Pair have "s' = s" by (simp add: deactivate_ebook_def public_call_fail)
    with Pair assms show ?thesis by simp
  next
    case (Inr v)
    from deactivate_ebook_ok [OF Pair [unfolded Inr]] assms
    have "ledger_inv s'"
      by (auto intro!: inv_book_update)
    with Pair show ?thesis by simp
  qed
qed

lemma inv_reactivate:
  assumes "ledger_inv s"
  shows "ledger_inv (snd (reactivate_ebook env i s))"
proof (cases "reactivate_ebook env i s")
  case (Pair r s')
  show ?thesis
  proof (cases r)
    case (Inl e)
    with Pair have "s' = s" by (simp add: reactivate_ebook_def public_call_fail)
    with Pair assms show ?thesis by simp
  next
    case (Inr v)
    from reactivate_ebook_ok [OF Pair [unfolded Inr]] assms
    have "ledger_inv s'"
      by (auto intro!: inv_book_update)
    with Pair show ?thesis by simp
  qed
qed

lemma inv_exec_call: "ledger_inv s \<Longrightarrow> ledger_inv (snd (exec_call c s))"
proof (cases c)
  case (Pair env op)
  assume "ledger_inv s"
  then show ?thesis unfolding Pair
    by (cases op)
      (simp_all add: snd_lift_response inv_register inv_buy inv_update_price
        inv_deactivate inv_reactivate)
qed

lemma inv_exec_calls: "ledger_inv s \<Longrightarrow> ledger_inv (exec_calls cs s)"
  by (induction cs arbitrary: s) (simp_all add: inv_exec_call)

lemma inv_init: "ledger_inv (init_state bal)"
  by (simp add: ledger_inv_def init_state_def get_buyer_ebooks_def)

lemma inv_reachable: "ledger_inv (exec_calls cs (init_state bal))"
  by (rule inv_exec_calls [OF inv_init])

section \<open>Purchases are never removed or overwritten\<close>

lemma purch_register: "purchases (snd (register_ebook env t d h p s)) = purchases s"
proof (cases "register_ebook env t d h p s")
  case (Pair r s')
  have "purchases s' = purchases s"
    using Pair by (cases r) (auto dest: register_ebook_result register_ebook_ok)
  with Pair show ?thesis by simp
qed

lemma purch_update_price: "purchases (snd (update_price env i p s)) = purchases s"
proof (cases "update_price env i p s")
  case (Pair r s')
  have "purchases s' = purchases s"
    using Pair by (cases r) (auto simp: update_price_def dest: public_call_fail update_price_ok [unfolded update_price_def])
  with Pair show ?thesis by simp
qed

lemma purch_deactivate: "purchases (snd (deactivate_ebook env i s)) = purchases s"
proof (cases "deactivate_ebook env i s")
  case (Pair r s')
  have "purchases s' = purchases s"
    using Pair by (cases r) (auto simp: deactivate_ebook_def dest: public_call_fail deactivate_ebook_ok [unfolded deactivate_ebook_def])
  with Pair show ?thesis by simp
qed

lemma purch_reactivate: "purchases (snd (reactivate_ebook env i s)) = purchases s"
proof (cases "reactivate_ebook env i s")
  case (Pair r s')
  have "purchases s' = purchases s"
    using Pair by (cases r) (auto simp: reactivate_ebook_def dest: public_call_fail reactivate_ebook_ok [unfolded reactivate_ebook_def])
  with Pair show ?thesis by simp
qed

lemma purch_buy:
  assumes "purchases s k = Some p"
  shows "purchases (snd (buy_ebook env i s)) k = Some p"
proof (cases "buy_ebook env i s")
  case (Pair r s')
  have "purchases s' k = Some p"
  proof (cases r)
    case (Inl e)
    with Pair have "s' = s" by (simp add: buy_ebook_def public_call_fail)
    with assms show ?thesis by simp
  next
    case (Inr v)
    from buy_ebook_ok [OF Pair [unfolded Inr]] assms show ?thesis by auto
  qed
  with Pair show ?thesis by simp
qed

lemma purch_exec_call:
  assumes "purchases s k = Some p"
  shows "purchases (snd (exec_call c s)) k = Some p"
proof (cases c)
  case (Pair env op)
  from assms show ?thesis unfolding Pair
    by (cases op)
      (simp_all add: snd_lift_response purch_register purch_buy purch_update_price
        purch_deactivate purch_reactivate)
qed

lemma purch_exec_calls:
  "purchases s k = Some p \<Longrightarrow> purchases (exec_calls cs s) k = Some p"
  by (induction cs arbitrary: s) (simp_all add: purch_exec_call)

lemma count_list_distinct: "distinct xs \<Longrightarrow> x \<in> set xs \<Longrightarrow> count_list xs x = 1"
  by (induction xs) auto

section \<open>The counter\<close>

lemma counter_register:
  "ebook_counter (snd (register_ebook env t d h p s)) =
     (case fst (register_ebook env t d h p s) of Inr n \<Rightarrow> n | Inl _ \<Rightarrow> ebook_counter s) \<and>
   (\<forall>n. fst (register_ebook env t d h p s) = Inr n \<longrightarrow> n = Suc (ebook_counter s))"
proof (cases "register_ebook env t d h p s")
  case (Pair r s')
  then show ?thesis
    by (cases r) (auto dest: register_ebook_result register_ebook_ok)
qed

lemma counter_buy: "ebook_counter (snd (buy_ebook env i s)) = ebook_counter s"
proof (cases "buy_ebook env i s")
  case (Pair r s')
  have "ebook_counter s' = ebook_counter s"
    using Pair by (cases r) (auto simp: buy_ebook_def dest: public_call_fail buy_ebook_ok [unfolded buy_ebook_def])
  with Pair show ?thesis by simp
qed

lemma counter_update_price: "ebook_counter (snd (update_price env i p s)) = ebook_counter s"
proof (cases "update_price env i p s")
  case (Pair r s')
  have "ebook_counter s' = ebook_counter s"
    using Pair by (cases r) (auto simp: update_price_def dest: public_call_fail update_price_ok [unfolded update_price_def])
  with Pair show ?thesis by simp
qed

lemma counter_deactivate: "ebook_counter (snd (deactivate_ebook env i s)) = ebook_counter s"
proof (cases "deactivate_ebook env i s")
  case (Pair r s')
  have "ebook_counter s' = ebook_counter s"
    using Pair by (cases r) (auto simp: deactivate_ebook_def dest: public_call_fail deactivate_ebook_ok [unfolded deactivate_ebook_def])
  with Pair show ?thesis by simp
qed

lemma counter_reactivate: "ebook_counter (snd (reactivate_ebook env i s)) = ebook_counter s"
proof (cases "reactivate_ebook env i s")
  case (Pair r s')
  have "ebook_counter s' = ebook_counter s"
    using Pair by (cases r) (auto simp: reactivate_ebook_def dest: public_call_fail reactivate_ebook_ok [unfolded reactivate_ebook_def])
  with Pair show ?thesis by simp
qed

lemma registered_ids_step:
  "registered_ids ((env, c) # cs) s =
     (if ebook_counter (snd (exec_call (env, c) s)) = ebook_counter s
      then registered_ids cs (snd (exec_call (env, c) s))
      else Suc (ebook_counter s) # registered_ids cs (snd (exec_call (env, c) s))) \<and>
   (ebook_counter (snd (exec_call (env, c) s)) = ebook_counter s \<or>
    ebook_counter (snd (exec_call (env, c) s)) = Suc (ebook_counter s))"
proof (cases c)
  case (Register_ebook t d h p)
  show ?thesis
    using counter_register [of env t d h p s]
    by (cases "fst (register_ebook env t d h p s)")
      (auto simp: Register_ebook snd_lift_response fst_lift_response)
qed (simp_all add: snd_lift_response counter_buy counter_update_price
      counter_deactivate counter_reactivate)

lemma registered_ids_from:
  "registered_ids cs s =
     [Suc (ebook_counter s) ..< Suc (ebook_counter s + length (registered_ids cs s))] \<and>
   ebook_counter (exec_calls cs s) = ebook_counter s + length (registered_ids cs s)"
proof (induction cs arbitrary: s)
  case Nil
  show ?case by simp
next
  case (Cons c cs)
  obtain env op where c: "c = (env, op)" by (cases c)
  let ?s = "snd (exec_call (env, op) s)"
  note step = registered_ids_step [of env op cs s]
  note IH = Cons.IH [of ?s]
  show ?case
  proof (cases "ebook_counter ?s = ebook_counter s")
    case True
    with step IH show ?thesis unfolding c by (simp del: registered_ids.simps exec_call.simps)
  next
    case False
    with step have suc: "ebook_counter ?s = Suc (ebook_counter s)" by blast
    from step False have ids: "registered_ids ((env, op) # cs) s =
        Suc (ebook_counter s) # registered_ids cs ?s" by simp
    from IH suc have "registered_ids cs ?s =
       [Suc (Suc (ebook_counter s)) ..< Suc (Suc (ebook_counter s) + length (registered_ids cs ?s))]"
      by simp
    then have "Suc (ebook_counter s) # registered_ids cs ?s =
       [Suc (ebook_counter s) ..< Suc (ebook_counter s + Suc (length (registered_ids cs ?s)))]"
      by (simp add: upt_conv_Cons del: upt_Suc)
    with IH suc ids show ?thesis unfolding c
      by (simp del: registered_ids.simps exec_call.simps upt_Suc)
  qed
qed

lemma register_repeatedly:
  assumes "0 < length t" and "0 < p"
  shows "length (get_author_ebooks s (tx_sender env)) + n \<le> 100 \<Longrightarrow>
         ebook_counter s + n \<le> uint_max \<Longrightarrow>
         length (get_author_ebooks
            (exec_calls (replicate n (env, Register_ebook t d h p)) s) (tx_sender env)) =
           length (get_author_ebooks s (tx_sender env)) + n \<and>
         ebook_counter (exec_calls (replicate n (env, Register_ebook t d h p)) s) =
           ebook_counter s + n"
proof (induction n arbitrary: s)
  case 0
  show ?case by simp
next
  case (Suc n)
  let ?s = "snd (exec_call (env, Register_ebook t d h p) s)"
  from Suc.prems have ok: "ebook_counter s < uint_max"
    "length (get_author_ebooks s (tx_sender env)) < 100" by simp_all
  note reg = register_ebook_succeeds [OF assms ok, of d h]
  have len: "length (get_author_ebooks ?s (tx_sender env)) =
      Suc (length (get_author_ebooks s (tx_sender env)))"
    by (simp add: reg snd_lift_response get_author_ebooks_def)
  have cnt: "ebook_counter ?s = Suc (ebook_counter s)"
    by (simp add: reg snd_lift_response)
  from Suc.prems len cnt Suc.IH [of ?s] show ?case by simp
qed

section \<open>The states of the scenario\<close>

lemmas scenario_defs =
  alice_def bob_def carol_def as_sender_def funds_def a_book_def the_book_def
  listed_state_def sold_state_def delisted_state_def sold_delisted_state_def

lemmas contract_defs =
  register_ebook_def register_ebook_body_def buy_ebook_def buy_ebook_body_def
  update_price_def update_price_body_def deactivate_ebook_def deactivate_ebook_body_def
  reactivate_ebook_def reactivate_ebook_body_def public_call_def lift_response_def
  init_state_def uint_add_def uint_max_def as_max_len_def stx_transfer_def
  get_author_ebooks_def get_buyer_ebooks_def get_current_time_def has_access_def
  get_ebook_count_def Let_def

lemma listed_state_eq:
  "listed_state = \<lparr>ebook_counter = 1, ebooks = [1 \<mapsto> the_book], purchases = Map.empty,
      author_ebooks = [''alice'' \<mapsto> [1]], buyer_ebooks = Map.empty,
      stx_balances = funds,
      events = [Ebook_registered 1 [66, 111, 111, 107] ''alice'' 1000000 (replicate 32 7) 1700000000]\<rparr>"
  by (simp add: scenario_defs contract_defs)

lemma delisted_state_book: "ebooks delisted_state 1 = Some (the_book\<lparr>active := False\<rparr>)"
  by (simp add: scenario_defs contract_defs)

lemma sold_state_purchase:
 "purchases sold_state (1, ''bob'') = Some \<lparr>purchased_at = 1700000000, price_paid = 1000000\<rparr>"
  by (simp add: scenario_defs contract_defs)

lemma sold_delisted_state_facts:
 "purchases sold_delisted_state (1, ''bob'') = Some \<lparr>purchased_at = 1700000000, price_paid = 1000000\<rparr>"
 "ebooks sold_delisted_state 1 = Some (the_book\<lparr>active := False\<rparr>)"
  by (simp_all add: scenario_defs contract_defs)

lemma full_state_facts:
  "length (get_author_ebooks full_state ''alice'') = 100 \<and> ebook_counter full_state = 100"
  using register_repeatedly [of "[66, 111, 111, 107]" 1000000 "init_state funds" "as_sender alice" 100
      "[]" "replicate 32 7"]
  by (simp add: full_state_def a_book_def as_sender_def alice_def init_state_def
      get_author_ebooks_def uint_max_def)

section \<open>The claims\<close>

subsection \<open>C1: one purchase for each book and buyer\<close>

text \<open>
  Claim C1, as the contract has it. In every state reached from the freshly
  deployed contract in which a buyer has purchased a book, another
  \<open>buy-ebook\<close> of that book by that buyer fails and leaves the whole state,
  the balances included, as it was: with \<open>ERR-ALREADY-PURCHASED\<close> (u104) while
  the book is active, and with \<open>ERR-EBOOK-NOT-FOUND\<close> (u101) once the book has
  been deactivated, since the check of the active flag comes first. The
  buyer's index lists the book exactly once, and no later sequence of calls
  removes or rewrites the purchase record.
\<close>

theorem second_buy_fails:
  assumes "s = exec_calls cs (init_state bal)"
    and "has_access s (tx_sender env) ebook_id"
  shows "\<exists>b. ebooks s ebook_id = Some b \<and>
           buy_ebook env ebook_id s =
             (Inl (if active b then ERR_ALREADY_PURCHASED else ERR_EBOOK_NOT_FOUND), s) \<and>
           ERR_ALREADY_PURCHASED = Err 104 \<and> ERR_EBOOK_NOT_FOUND = Err 101 \<and>
           count_list (get_buyer_ebooks s (tx_sender env)) ebook_id = 1 \<and>
           purchases (exec_calls cs' s) (ebook_id, tx_sender env) =
             purchases s (ebook_id, tx_sender env)"
proof -
  have inv: "ledger_inv s" unfolding assms(1) by (rule inv_reachable)
  from assms(2) obtain p where p: "purchases s (ebook_id, tx_sender env) = Some p"
    by (auto simp: has_access_def)
  with inv obtain b where b: "ebooks s ebook_id = Some b" "author b \<noteq> tx_sender env"
    unfolding ledger_inv_def by blast
  from inv p have "distinct (get_buyer_ebooks s (tx_sender env))"
    "ebook_id \<in> set (get_buyer_ebooks s (tx_sender env))"
    by (simp_all add: ledger_inv_def)
  then have cnt: "count_list (get_buyer_ebooks s (tx_sender env)) ebook_id = 1"
    by (rule count_list_distinct)
  have "buy_ebook env ebook_id s =
             (Inl (if active b then ERR_ALREADY_PURCHASED else ERR_EBOOK_NOT_FOUND), s)"
    using b assms(2)
    by (auto simp: buy_ebook_def buy_ebook_body_def public_call_def Let_def)
  with b cnt purch_exec_calls [OF p, of cs'] p show ?thesis
    by (simp add: ERR_ALREADY_PURCHASED_def ERR_EBOOK_NOT_FOUND_def)
qed

text \<open>
  Bob has bought Alice's book. His second purchase is refused with u104, and
  his purchase record outlasts the deactivation of the book.
\<close>

theorem second_buy_fails_witness:
  "has_access sold_state (tx_sender (as_sender bob)) 1 \<and>
   (\<exists>b. ebooks sold_state 1 = Some b \<and>
      buy_ebook (as_sender bob) 1 sold_state =
        (Inl (if active b then ERR_ALREADY_PURCHASED else ERR_EBOOK_NOT_FOUND), sold_state) \<and>
      ERR_ALREADY_PURCHASED = Err 104 \<and> ERR_EBOOK_NOT_FOUND = Err 101 \<and>
      count_list (get_buyer_ebooks sold_state (tx_sender (as_sender bob))) 1 = 1 \<and>
      purchases (exec_calls [(as_sender alice, Deactivate_ebook 1)] sold_state)
        (1, tx_sender (as_sender bob)) = purchases sold_state (1, tx_sender (as_sender bob)))"
proof -
  have h: "has_access sold_state (tx_sender (as_sender bob)) 1"
    using sold_state_purchase by (simp add: has_access_def as_sender_def bob_def)
  from second_buy_fails [OF sold_state_def h, of "[(as_sender alice, Deactivate_ebook 1)]"] h
  show ?thesis by simp
qed

text \<open>
  The claim as it was written promises u104 for every second purchase. Alice
  registers a book, Bob buys it, Alice deactivates it: Bob's second
  \<open>buy-ebook\<close> answers u101.
\<close>

theorem second_buy_after_deactivation:
  "has_access sold_delisted_state bob 1 \<and>
   buy_ebook (as_sender bob) 1 sold_delisted_state = (Inl ERR_EBOOK_NOT_FOUND, sold_delisted_state) \<and>
   ERR_EBOOK_NOT_FOUND \<noteq> ERR_ALREADY_PURCHASED"
  using sold_delisted_state_facts
  by (simp add: has_access_def bob_def as_sender_def
      buy_ebook_def buy_ebook_body_def public_call_def Let_def the_book_def
      ERR_EBOOK_NOT_FOUND_def ERR_ALREADY_PURCHASED_def)

subsection \<open>C2: a failed transfer leaves no trace\<close>



subsection \<open>C3: identifiers count the registrations\<close>

text \<open>
  Claim C3. For every sequence of calls from the freshly deployed contract,
  the identifiers answered by the successful \<open>register-ebook\<close> calls are
  1, 2, 3, ... in that order (the Nth one answers N), and \<open>get-ebook-count\<close>
  answers their number.
\<close>

theorem register_ids_sequential:
  "registered_ids cs (init_state bal) =
     [1 ..< Suc (length (registered_ids cs (init_state bal)))] \<and>
   get_ebook_count (exec_calls cs (init_state bal)) = length (registered_ids cs (init_state bal))"
  using registered_ids_from [of cs "init_state bal"]
  by (simp add: init_state_def get_ebook_count_def del: upt_Suc)

text \<open>
  Two registrations succeed among a purchase and a registration refused for
  its empty title: they answer 1 and 2.
\<close>

theorem register_ids_sequential_witness:
  "registered_ids mixed_calls (init_state funds) = [1, 2] \<and>
   get_ebook_count (exec_calls mixed_calls (init_state funds)) = 2"
proof -
  have len: "length (registered_ids mixed_calls (init_state funds)) = 2"
    by (simp add: mixed_calls_def scenario_defs contract_defs)
  note r = register_ids_sequential [of mixed_calls funds, unfolded len]
  have e: "[1 ..< Suc 2] = [1, 2::nat]" by (simp add: upt_rec)
  from r show ?thesis unfolding e .
qed

subsection \<open>C4: access is permanent\<close>

text \<open>
  Claim C4. After a successful \<open>buy-ebook\<close> the buyer has access to the book,
  and still has it after any further sequence of calls, in particular after
  a \<open>deactivate-ebook\<close> of the book by whoever calls it.
\<close>

theorem access_is_permanent:
  assumes "buy_ebook env ebook_id s = (Inr True, s1)"
  shows "has_access s1 (tx_sender env) ebook_id \<and>
         has_access (exec_calls cs s1) (tx_sender env) ebook_id \<and>
         has_access (snd (deactivate_ebook env' ebook_id s1)) (tx_sender env) ebook_id"
proof -
  from buy_ebook_ok [OF assms] obtain p where p: "purchases s1 (ebook_id, tx_sender env) = Some p"
    by auto
  from purch_exec_calls [OF p] purch_deactivate p show ?thesis
    by (simp add: has_access_def)
qed

text \<open>Bob buys Alice's book, and Alice deactivates it.\<close>

theorem access_is_permanent_witness:
  "buy_ebook (as_sender bob) 1 listed_state = (Inr True, sold_state) \<and>
   has_access sold_state (tx_sender (as_sender bob)) 1 \<and>
   has_access (exec_calls [(as_sender alice, Deactivate_ebook 1)] sold_state)
     (tx_sender (as_sender bob)) 1 \<and>
   has_access (snd (deactivate_ebook (as_sender alice) 1 sold_state)) (tx_sender (as_sender bob)) 1"
proof -
  have h: "buy_ebook (as_sender bob) 1 listed_state = (Inr True, sold_state)"
    by (simp add: scenario_defs contract_defs)
  from access_is_permanent [OF h, of "[(as_sender alice, Deactivate_ebook 1)]" "as_sender alice"] h
  show ?thesis by simp
qed

subsection \<open>C5: the author cannot buy the own book\<close>

text \<open>
  Claim C5, as the contract has it. For every state and every stored book, a
  \<open>buy-ebook\<close> of the book by its registered author fails and leaves the state
  unchanged, whatever the price: with \<open>ERR-SELF-PURCHASE\<close> (u107) when the book
  is active, and with \<open>ERR-EBOOK-NOT-FOUND\<close> (u101) when it is inactive, since
  the check of the active flag comes before the check of the buyer.
\<close>

theorem author_buy:
  assumes "ebooks s ebook_id = Some b" and "tx_sender env = author b"
  shows "buy_ebook env ebook_id s =
           (Inl (if active b then ERR_SELF_PURCHASE else ERR_EBOOK_NOT_FOUND), s) \<and>
         ERR_SELF_PURCHASE = Err 107 \<and> ERR_EBOOK_NOT_FOUND = Err 101"
  using assms
  by (simp add: buy_ebook_def buy_ebook_body_def public_call_def Let_def
      ERR_SELF_PURCHASE_def ERR_EBOOK_NOT_FOUND_def)

text \<open>Alice tries to buy the book she has just registered.\<close>

theorem author_buy_witness:
  "ebooks listed_state 1 = Some the_book \<and> tx_sender (as_sender alice) = author the_book \<and>
   buy_ebook (as_sender alice) 1 listed_state = (Inl (Err 107), listed_state)"
proof -
  have h1: "ebooks listed_state 1 = Some the_book" by (simp add: listed_state_eq)
  have h2: "tx_sender (as_sender alice) = author the_book"
    by (simp add: as_sender_def alice_def the_book_def)
  have "active the_book" by (simp add: the_book_def)
  with author_buy [OF h1 h2] h1 h2 show ?thesis by simp
qed

text \<open>
  The claim as it was written promises u107 for an inactive book too. Alice
  registers a book and deactivates it: her \<open>buy-ebook\<close> answers u101.
\<close>

theorem author_buy_inactive:
  "ebooks delisted_state 1 = Some (the_book\<lparr>active := False\<rparr>) \<and>
   author (the_book\<lparr>active := False\<rparr>) = alice \<and>
   buy_ebook (as_sender alice) 1 delisted_state = (Inl ERR_EBOOK_NOT_FOUND, delisted_state) \<and>
   ERR_EBOOK_NOT_FOUND \<noteq> ERR_SELF_PURCHASE"
  using delisted_state_book
  by (simp add: alice_def as_sender_def the_book_def
      buy_ebook_def buy_ebook_body_def public_call_def Let_def
      ERR_EBOOK_NOT_FOUND_def ERR_SELF_PURCHASE_def)

subsection \<open>C6: missing and inactive books answer alike\<close>

text \<open>
  Claim C6. For every caller and every state, \<open>buy-ebook\<close> fails with
  \<open>ERR-EBOOK-NOT-FOUND\<close> (u101), leaving the state unchanged, when no book is
  stored under the identifier and also when the stored book is inactive: the
  same error in both cases.
\<close>

theorem buy_ebook_missing_or_inactive:
  assumes "ebooks s ebook_id = None \<or> (\<exists>b. ebooks s ebook_id = Some b \<and> \<not> active b)"
  shows "buy_ebook env ebook_id s = (Inl ERR_EBOOK_NOT_FOUND, s) \<and> ERR_EBOOK_NOT_FOUND = Err 101"
  using assms
  by (auto simp: buy_ebook_def buy_ebook_body_def public_call_def ERR_EBOOK_NOT_FOUND_def Let_def)

text \<open>Bob asks for a book that was never registered, and for a deactivated one.\<close>

theorem buy_ebook_missing_or_inactive_witness:
  "ebooks listed_state 2 = None \<and>
   buy_ebook (as_sender bob) 2 listed_state = (Inl (Err 101), listed_state) \<and>
   (\<exists>b. ebooks delisted_state 1 = Some b \<and> \<not> active b) \<and>
   buy_ebook (as_sender bob) 1 delisted_state = (Inl (Err 101), delisted_state)"
proof -
  have h1: "ebooks listed_state 2 = None" by (simp add: listed_state_eq)
  have h2: "\<exists>b. ebooks delisted_state 1 = Some b \<and> \<not> active b"
    using delisted_state_book by simp
  from buy_ebook_missing_or_inactive [OF disjI1 [OF h1], of "as_sender bob"]
    buy_ebook_missing_or_inactive [OF disjI2 [OF h2], of "as_sender bob"] h1 h2
  show ?thesis by simp
qed

subsection \<open>C7: only the author changes a book\<close>

text \<open>
  Claim C7. For every stored book and every caller other than its author,
  \<open>update-price\<close>, \<open>deactivate-ebook\<close> and \<open>reactivate-ebook\<close> each fail with
  \<open>ERR-NOT-AUTHORIZED\<close> (u100) and leave the state, hence every field of the
  book, unchanged.
\<close>

theorem non_author_rejected:
  assumes "ebooks s ebook_id = Some b" and "tx_sender env \<noteq> author b"
  shows "update_price env ebook_id new_price s = (Inl ERR_NOT_AUTHORIZED, s) \<and>
         deactivate_ebook env ebook_id s = (Inl ERR_NOT_AUTHORIZED, s) \<and>
         reactivate_ebook env ebook_id s = (Inl ERR_NOT_AUTHORIZED, s) \<and>
         ERR_NOT_AUTHORIZED = Err 100"
  using assms
  by (auto simp: update_price_def update_price_body_def deactivate_ebook_def
      deactivate_ebook_body_def reactivate_ebook_def reactivate_ebook_body_def
      public_call_def ERR_NOT_AUTHORIZED_def)

text \<open>Bob tries all three on Alice's book.\<close>

theorem non_author_rejected_witness:
  "ebooks listed_state 1 = Some the_book \<and> tx_sender (as_sender bob) \<noteq> author the_book \<and>
   update_price (as_sender bob) 1 5 listed_state = (Inl (Err 100), listed_state) \<and>
   deactivate_ebook (as_sender bob) 1 listed_state = (Inl (Err 100), listed_state) \<and>
   reactivate_ebook (as_sender bob) 1 listed_state = (Inl (Err 100), listed_state)"
proof -
  have h1: "ebooks listed_state 1 = Some the_book" by (simp add: listed_state_eq)
  have h2: "tx_sender (as_sender bob) \<noteq> author the_book"
    by (simp add: as_sender_def bob_def the_book_def)
  from non_author_rejected [OF h1 h2, of 5] h1 h2 show ?thesis by simp
qed

subsection \<open>C8: a full author index\<close>

text \<open>
  Claim C8. When \<open>register-ebook\<close> is called with a non-empty title and a
  positive price by an author whose index already holds 100 identifiers, the
  call is to fail with an error of its own, distinct from every other code,
  and to store no book. The contract stores nothing, but the error it answers
  is \<open>ERR-NOT-AUTHORIZED\<close> (u100), the code it gives to callers that are not
  the author of a book, although \<open>register-ebook\<close> checks no authorization
  and its other exits have codes of their own. Alice's 101st registration
  leaves the state as it was and gets the response that Bob gets when he
  tries to reprice her book.
\<close>

theorem register_ebook_overflow_not_distinct:
  "length (get_author_ebooks full_state alice) = 100 \<and>
   register_ebook (as_sender alice) [66, 111, 111, 107] [] (replicate 32 7) 1000000 full_state =
     (Inl ERR_NOT_AUTHORIZED, full_state) \<and>
   fst (update_price (as_sender bob) 1 5 listed_state) = Inl ERR_NOT_AUTHORIZED \<and>
   ERR_NOT_AUTHORIZED = Err 100"
proof -
  have h: "length (get_author_ebooks full_state (tx_sender (as_sender alice))) = 100"
    using full_state_facts by (simp add: as_sender_def alice_def)
  have c: "ebook_counter full_state < uint_max"
    using full_state_facts by (simp add: uint_max_def)
  have "fst (update_price (as_sender bob) 1 5 listed_state) = Inl ERR_NOT_AUTHORIZED"
    by (simp add: listed_state_eq the_book_def as_sender_def bob_def update_price_def
        update_price_body_def public_call_def)
  with register_at_capacity [OF _ _ h, of "[66, 111, 111, 107]" 1000000 "[]" "replicate 32 7"] h c
  show ?thesis by (simp add: as_sender_def alice_def ERR_NOT_AUTHORIZED_def)
qed

subsection \<open>C9: a price update touches the price only\<close>

text \<open>
  Claim C9. For every stored book, \<open>update-price\<close> called by its author with a
  positive new price succeeds and replaces the price of that book only: its
  title, description, content hash, author, creation time and active flag
  stay, as do every other book, every purchase record, the counter, both
  indices and the balances.
\<close>

theorem update_price_frame:
  assumes "ebooks s ebook_id = Some b" and "author b = tx_sender env" and "0 < new_price"
  shows "\<exists>s' b'. update_price env ebook_id new_price s = (Inr True, s') \<and>
           ebooks s' ebook_id = Some b' \<and> price b' = new_price \<and>
           title b' = title b \<and> description b' = description b \<and>
           content_hash b' = content_hash b \<and> author b' = author b \<and>
           created_at b' = created_at b \<and> active b' = active b \<and>
           (\<forall>i. i \<noteq> ebook_id \<longrightarrow> ebooks s' i = ebooks s i) \<and>
           purchases s' = purchases s \<and> ebook_counter s' = ebook_counter s \<and>
           author_ebooks s' = author_ebooks s \<and> buyer_ebooks s' = buyer_ebooks s \<and>
           stx_balances s' = stx_balances s"
  using assms
  by (simp add: update_price_def update_price_body_def public_call_def Let_def)

text \<open>Alice reprices her book from 1000000 to 5.\<close>

theorem update_price_frame_witness:
  "ebooks listed_state 1 = Some the_book \<and> author the_book = tx_sender (as_sender alice) \<and>
   (0::nat) < 5 \<and>
   (\<exists>s'. update_price (as_sender alice) 1 5 listed_state = (Inr True, s') \<and>
      ebooks s' 1 = Some (the_book\<lparr>price := 5\<rparr>) \<and> purchases s' = purchases listed_state)"
proof -
  have h1: "ebooks listed_state 1 = Some the_book" by (simp add: listed_state_eq)
  have h2: "author the_book = tx_sender (as_sender alice)"
    by (simp add: as_sender_def alice_def the_book_def)
  have h3: "(0::nat) < 5" by simp
  from update_price_frame [OF h1 h2 h3] obtain s' b' where
    r: "update_price (as_sender alice) 1 5 listed_state = (Inr True, s')"
       "ebooks s' 1 = Some b'" "price b' = 5" "title b' = title the_book"
       "description b' = description the_book" "content_hash b' = content_hash the_book"
       "author b' = author the_book" "created_at b' = created_at the_book"
       "active b' = active the_book" "purchases s' = purchases listed_state"
    by blast
  then have "b' = the_book\<lparr>price := 5\<rparr>" by simp
  with r h1 h2 show ?thesis by simp
qed

subsection \<open>C10: no purchase by the author\<close>

text \<open>
  Claim C10. In every state reached from the freshly deployed contract, the
  author of a stored book has no access to it through a purchase:
  \<open>has-access\<close> of the author and the book is false.
\<close>

theorem author_has_no_access:
  assumes "ebooks (exec_calls cs (init_state bal)) ebook_id = Some b"
  shows "\<not> has_access (exec_calls cs (init_state bal)) (author b) ebook_id"
proof
  let ?s = "exec_calls cs (init_state bal)"
  assume "has_access ?s (author b) ebook_id"
  then have "purchases ?s (ebook_id, author b) \<noteq> None"
    by (simp add: has_access_def)
  moreover have "ledger_inv ?s" by (rule inv_reachable)
  ultimately obtain b' where "ebooks ?s ebook_id = Some b'" "author b' \<noteq> author b"
    unfolding ledger_inv_def by blast
  with assms show False by simp
qed

text \<open>After Bob's purchase of Alice's book, Alice still has no access.\<close>

theorem author_has_no_access_witness:
  "ebooks (exec_calls [(as_sender alice, a_book), (as_sender bob, Buy_ebook 1)] (init_state funds)) 1
     = Some the_book \<and>
   \<not> has_access (exec_calls [(as_sender alice, a_book), (as_sender bob, Buy_ebook 1)] (init_state funds))
     (author the_book) 1"
proof -
  have h: "ebooks (exec_calls [(as_sender alice, a_book), (as_sender bob, Buy_ebook 1)]
      (init_state funds)) 1 = Some the_book"
    by (simp add: scenario_defs contract_defs)
  from author_has_no_access [OF h] h show ?thesis by simp
qed

end
